theory Spec2Isabelle
  imports Main
begin

section \<open>Python values used by the mailbox store\<close>

text \<open>
  The store of \<^verbatim>\<open>src/main.py\<close> works on Python \<^verbatim>\<open>str\<close> and \<^verbatim>\<open>bytes\<close>
  values. A \<^verbatim>\<open>str\<close> is a sequence of Unicode code points and is modelled as a list of
  naturals; a \<^verbatim>\<open>bytes\<close> value is a list of 8-bit characters. \<open>str\<close> turns an
  ASCII literal into the text with the same code points.
\<close>

type_synonym pystr = "nat list"
type_synonym bytes = "char list"

definition str :: "string \<Rightarrow> pystr" where
  "str s = map of_char s"

text \<open>
  Every way an operation of the store can end without a result. A
  \<open>MailboxException\<close> is delivered through \<^verbatim>\<open>defer.fail\<close>: with the message
  \<^verbatim>\<open>"Message not found"\<close> it is the not-found condition of the specification. The
  other errors are Python exceptions that leave the method: \<open>OSError\<close> is a failed disk
  operation (the I/O failure of the specification), \<open>KeyError\<close> comes from
  \<^verbatim>\<open>mailbox.mbox\<close>, \<open>AttributeError\<close> from calling a method on a value that does
  not have it, the Unicode errors from strict encoding and decoding,
  \<open>ValueError\<close> from opening a path with a NUL in it, \<open>LookupError\<close> from
  flattening a message whose character set the library does not know.
\<close>

datatype error =
    MailboxException string
  | KeyError int
  | AttributeError
  | OSError
  | UnicodeDecodeError
  | UnicodeEncodeError
  | ValueError
  | LookupError

abbreviation NotFound :: error where
  "NotFound \<equiv> MailboxException ''Message not found''"

abbreviation IOFailure :: error where
  "IOFailure \<equiv> OSError"

subsection \<open>\<^verbatim>\<open>str.lower\<close> and the \<^verbatim>\<open>in\<close> operator\<close>

text \<open>
  \<^verbatim>\<open>s.lower()\<close> is the lower-casing of Unicode, a table of the Python runtime
  that is no part of the store. The operations that call it take it as their
  parameter \<open>lower\<close>, and what is proved of them holds for every such function. All
  that is used of \<^verbatim>\<open>str.lower\<close>, and only where a property speaks of particular
  ASCII strings, is what it does to ASCII text: it maps the letters \<^verbatim>\<open>A\<close> to
  \<^verbatim>\<open>Z\<close> to \<^verbatim>\<open>a\<close> to \<^verbatim>\<open>z\<close> and leaves the other characters as they are.
  \<open>lowers_ascii lower\<close> says that of \<open>lower\<close>, and \<open>ascii_lower\<close> is a function
  that does just this.
\<close>

definition lower_cp :: "nat \<Rightarrow> nat" where
  "lower_cp c = (if 65 \<le> c \<and> c \<le> 90 then c + 32 else c)"

definition ascii_lower :: "pystr \<Rightarrow> pystr" where
  "ascii_lower s = map lower_cp s"

definition lowers_ascii :: "(pystr \<Rightarrow> pystr) \<Rightarrow> bool" where
  "lowers_ascii lower = (\<forall>s. list_all (\<lambda>c. c < 128) s \<longrightarrow> lower s = ascii_lower s)"

text \<open>\<^verbatim>\<open>q in s\<close> on two strings: \<open>q\<close> occurs in \<open>s\<close> as a contiguous run.\<close>

fun startswith :: "'a list \<Rightarrow> 'a list \<Rightarrow> bool" where
  "startswith s [] = True"
| "startswith [] (p # ps) = False"
| "startswith (x # xs) (p # ps) = (x = p \<and> startswith xs ps)"

fun str_in :: "'a list \<Rightarrow> 'a list \<Rightarrow> bool" where
  "str_in q [] = (q = [])"
| "str_in q (x # xs) = (startswith (x # xs) q \<or> str_in q xs)"

subsection \<open>UTF-8\<close>

text \<open>
  \<^verbatim>\<open>bytes.decode\<close> reads UTF-8 (the default encoding). \<open>utf8_step b bs\<close> looks at
  the sequence that starts with byte \<open>b\<close> and is followed by \<open>bs\<close>: it yields the decoded
  code point, or \<open>None\<close> for a malformed sequence, together with the number of bytes
  of \<open>bs\<close> that the code point or the error covers. As in CPython's decoder, an invalid
  start byte is an error of one byte, an invalid continuation byte ends the error just
  before it, and a sequence cut off by the end of the data is an error up to that end.
  Overlong forms, surrogates and code points above \<^verbatim>\<open>0x10FFFF\<close> are malformed.
\<close>

definition is_cont :: "nat \<Rightarrow> bool" where
  "is_cont c = (128 \<le> c \<and> c < 192)"

text \<open>
  The second byte of a three-byte and of a four-byte sequence: a continuation byte
  that, after the start bytes \<^verbatim>\<open>E0\<close> and \<^verbatim>\<open>F0\<close>, is not an overlong form and,
  after \<^verbatim>\<open>ED\<close> and \<^verbatim>\<open>F4\<close>, stays below the surrogates and below \<^verbatim>\<open>0x110000\<close>.
\<close>

definition second_of_three :: "nat \<Rightarrow> nat \<Rightarrow> bool" where
  "second_of_three b c =
     (is_cont c \<and> (if b = 224 then 160 \<le> c else if b = 237 then c < 160 else True))"

definition second_of_four :: "nat \<Rightarrow> nat \<Rightarrow> bool" where
  "second_of_four b c =
     (is_cont c \<and> (if b = 240 then 144 \<le> c else if b = 244 then c < 144 else True))"

definition utf8_step :: "nat \<Rightarrow> nat list \<Rightarrow> nat option \<times> nat" where
  "utf8_step b bs =
    (if b < 128 then (Some b, 0)
     else if b < 194 then (None, 0)
     else if b < 224 then
       (case bs of
          [] \<Rightarrow> (None, 0)
        | c # cs \<Rightarrow>
            if is_cont c then (Some ((b - 192) * 64 + (c - 128)), 1) else (None, 0))
     else if b < 240 then
       (case bs of
          [] \<Rightarrow> (None, 0)
        | c # cs \<Rightarrow>
            if second_of_three b c then
              (case cs of
                 [] \<Rightarrow> (None, 1)
               | d # ds \<Rightarrow>
                   if is_cont d
                   then (Some ((b - 224) * 4096 + (c - 128) * 64 + (d - 128)), 2)
                   else (None, 1))
            else (None, 0))
     else if b < 245 then
       (case bs of
          [] \<Rightarrow> (None, 0)
        | c # cs \<Rightarrow>
            if second_of_four b c then
              (case cs of
                 [] \<Rightarrow> (None, 1)
               | d # ds \<Rightarrow>
                   if is_cont d then
                     (case ds of
                        [] \<Rightarrow> (None, 2)
                      | e # es \<Rightarrow>
                          if is_cont e
                          then (Some ((b - 240) * 262144 + (c - 128) * 4096
                                      + (d - 128) * 64 + (e - 128)), 3)
                          else (None, 2))
                   else (None, 1))
            else (None, 0))
     else (None, 0))"

fun utf8_items :: "nat list \<Rightarrow> nat option list" where
  "utf8_items [] = []"
| "utf8_items (b # bs) =
     (case utf8_step b bs of (item, n) \<Rightarrow> item # utf8_items (drop n bs))"

text \<open>
  \<^verbatim>\<open>b.decode(errors='ignore')\<close> drops every malformed sequence and keeps the rest;
  \<^verbatim>\<open>b.decode("utf-8")\<close> raises \<^verbatim>\<open>UnicodeDecodeError\<close> at the first one.
\<close>

definition decode_ignore :: "bytes \<Rightarrow> pystr" where
  "decode_ignore b = concat (map (\<lambda>item. case item of None \<Rightarrow> [] | Some c \<Rightarrow> [c])
                                 (utf8_items (map of_char b)))"

definition decode :: "bytes \<Rightarrow> error + pystr" where
  "decode b =
     (let items = utf8_items (map of_char b)
      in if None \<in> set items then Inl UnicodeDecodeError
         else Inr (concat (map (\<lambda>item. case item of None \<Rightarrow> [] | Some c \<Rightarrow> [c]) items)))"

text \<open>
  \<^verbatim>\<open>s.encode("utf-8")\<close>: one to four bytes for each code point; a surrogate
  (\<^verbatim>\<open>U+D800\<close> to \<^verbatim>\<open>U+DFFF\<close>) raises \<^verbatim>\<open>UnicodeEncodeError\<close>.
\<close>

definition encode_cp :: "nat \<Rightarrow> nat list option" where
  "encode_cp c =
    (if c < 128 then Some [c]
     else if c < 2048 then Some [192 + c div 64, 128 + c mod 64]
     else if 55296 \<le> c \<and> c < 57344 then None
     else if c < 65536 then
       Some [224 + c div 4096, 128 + (c div 64) mod 64, 128 + c mod 64]
     else Some [240 + c div 262144, 128 + (c div 4096) mod 64,
                128 + (c div 64) mod 64, 128 + c mod 64])"

fun encode :: "pystr \<Rightarrow> error + bytes" where
  "encode [] = Inr []"
| "encode (c # cs) =
     (case encode_cp c of
        None \<Rightarrow> Inl UnicodeEncodeError
      | Some bs \<Rightarrow>
          (case encode cs of
             Inl e \<Rightarrow> Inl e
           | Inr rest \<Rightarrow> Inr (map char_of bs @ rest)))"

text \<open>
  The code points a \<^verbatim>\<open>str\<close> can be encoded from: the Unicode scalar values, that is
  everything up to \<^verbatim>\<open>U+10FFFF\<close> but the surrogates.
\<close>

definition scalar :: "nat \<Rightarrow> bool" where
  "scalar c = (c < 1114112 \<and> (c < 55296 \<or> 57344 \<le> c))"

section \<open>Messages and the message file\<close>

text \<open>
  A message handle is what \<^verbatim>\<open>mailbox.mbox\<close> parses out of the message file (an
  \<^verbatim>\<open>mboxMessage\<close>). The store reads three things from a handle, and the record
  holds what the library answers for each, next to the bytes of the message itself:
  \<^item> \<open>subject\<close> is \<^verbatim>\<open>msg.get("subject")\<close>: \<open>None\<close> when the message has no such
    header, otherwise the header value. The library returns the value as a
    \<^verbatim>\<open>str\<close>, except for a header that holds raw non-ASCII bytes, which it returns
    as an \<^verbatim>\<open>email.header.Header\<close> object (documented for the \<^verbatim>\<open>compat32\<close>
    policy, the one \<^verbatim>\<open>mailbox\<close> parses with);
  \<^item> \<open>payload\<close> is \<^verbatim>\<open>msg.get_payload(decode=True)\<close>: the body as bytes, and
    \<^verbatim>\<open>None\<close> for a multipart message;
  \<^item> \<open>as_string\<close> is \<^verbatim>\<open>msg.as_string()\<close>: the message flattened again to text, or
    the exception that flattening raises (\<^verbatim>\<open>LookupError\<close> for a body with bytes
    that are not ASCII in a character set the library does not know).
  \<open>raw\<close> is the byte sequence of the message as it was appended to the file.
\<close>

datatype header_value = Str pystr | Header

record message =
  raw :: bytes
  subject :: "header_value option"
  payload :: "bytes option"
  as_string :: "error + pystr"

text \<open>
  The disk says of each path what opening it gives: \<open>File ms\<close>, a file that the
  library reads as the messages \<open>ms\<close>, in file order; \<open>Absent\<close>, no file yet, where
  one can be created; or \<open>Unopenable e\<close>, a path that \<^verbatim>\<open>open\<close> refuses with the
  exception \<open>e\<close> (a directory of the path is missing, the name is too long or holds
  a NUL). Whether the write of \<^verbatim>\<open>flush\<close> succeeds is an input of the model.
\<close>

datatype entry = File "message list" | Absent | Unopenable error

type_synonym files = "pystr \<Rightarrow> entry"

definition can_open :: "files \<Rightarrow> pystr \<Rightarrow> bool" where
  "can_open fs p = (case fs p of File ms \<Rightarrow> True | Absent \<Rightarrow> True | Unopenable e \<Rightarrow> False)"

definition contents :: "files \<Rightarrow> pystr \<Rightarrow> message list" where
  "contents fs p = (case fs p of File ms \<Rightarrow> ms | Absent \<Rightarrow> [] | Unopenable e \<Rightarrow> [])"

datatype disk = Healthy | Failing

subsection \<open>Dictionaries\<close>

text \<open>
  A Python \<^verbatim>\<open>dict\<close> keeps its items in insertion order, and the store iterates
  over them, so a dictionary is the list of its items, with distinct keys.
\<close>

definition dict_has :: "('k \<times> 'v) list \<Rightarrow> 'k \<Rightarrow> bool" where
  "dict_has d k = (map_of d k \<noteq> None)"

definition dict_del :: "('k \<times> 'v) list \<Rightarrow> 'k \<Rightarrow> ('k \<times> 'v) list" where
  "dict_del d k = filter (\<lambda>item. fst item \<noteq> k) d"

definition dict_set :: "('k \<times> 'v) list \<Rightarrow> 'k \<Rightarrow> 'v \<Rightarrow> ('k \<times> 'v) list" where
  "dict_set d k v =
     (if dict_has d k then map (\<lambda>item. if fst item = k then (k, v) else item) d
      else d @ [(k, v)])"

text \<open>\<^verbatim>\<open>enumerate(xs)\<close>, counting from \<open>n\<close>.\<close>

fun enumerate_from :: "int \<Rightarrow> 'a list \<Rightarrow> (int \<times> 'a) list" where
  "enumerate_from n [] = []"
| "enumerate_from n (x # xs) = (n, x) # enumerate_from (n + 1) xs"

subsection \<open>\<^verbatim>\<open>mailbox.mbox\<close>\<close>

text \<open>
  The library object behind a store. \<open>toc\<close> is its table of contents \<^verbatim>\<open>_toc\<close>, a
  dictionary from key to the place of a message in the file (here: to the message
  found at that place); it is \<open>None\<close> until the file has been scanned. \<open>pending\<close> is
  \<^verbatim>\<open>_pending\<close>: a change that the file does not have yet. The places of the table
  and the messages read through them agree as long as this object is the only one
  that writes the file.
\<close>

record mbox =
  path :: pystr
  toc :: "(int \<times> message) list option"
  pending :: bool

text \<open>
  \<^verbatim>\<open>mailbox.mbox(path)\<close> opens the file and creates an empty one if there is none;
  where it can do neither, the exception of \<^verbatim>\<open>open\<close> leaves the constructor.
\<close>

definition mbox_init :: "pystr \<Rightarrow> files \<Rightarrow> error + mbox \<times> files" where
  "mbox_init p fs =
     (case fs p of
        File ms \<Rightarrow> Inr (\<lparr>path = p, toc = None, pending = False\<rparr>, fs)
      | Absent \<Rightarrow> Inr (\<lparr>path = p, toc = None, pending = False\<rparr>, fs(p := File []))
      | Unopenable e \<Rightarrow> Inl e)"

text \<open>
  \<^verbatim>\<open>_generate_toc\<close> scans the file and numbers its messages from 0:
  \<^verbatim>\<open>dict(enumerate(zip(starts, stops)))\<close>. \<^verbatim>\<open>_lookup()\<close> does so only when there
  is no table yet.
\<close>

definition generate_toc :: "files \<Rightarrow> mbox \<Rightarrow> mbox" where
  "generate_toc fs mb =
     mb\<lparr>toc := Some (enumerate_from 0 (contents fs (path mb)))\<rparr>"

definition lookup :: "files \<Rightarrow> mbox \<Rightarrow> mbox" where
  "lookup fs mb = (case toc mb of None \<Rightarrow> generate_toc fs mb | Some t \<Rightarrow> mb)"

definition toc_items :: "mbox \<Rightarrow> (int \<times> message) list" where
  "toc_items mb = (case toc mb of None \<Rightarrow> [] | Some t \<Rightarrow> t)"

text \<open>
  \<^verbatim>\<open>list(self.mbox)\<close> iterates over the keys of the table in their order and reads
  the message of each.
\<close>

definition mbox_list :: "files \<Rightarrow> mbox \<Rightarrow> message list \<times> mbox" where
  "mbox_list fs mb = (let mb' = lookup fs mb in (map snd (toc_items mb'), mb'))"

text \<open>
  \<^verbatim>\<open>del self.mbox[key]\<close> is \<^verbatim>\<open>remove(key)\<close>: \<^verbatim>\<open>KeyError\<close> when the table has no
  such key, otherwise the key leaves the table and the change is pending. The keys of
  the other messages stay as they are.
\<close>

definition mbox_delitem :: "int \<Rightarrow> files \<Rightarrow> mbox \<Rightarrow> (error + unit) \<times> mbox" where
  "mbox_delitem key fs mb =
     (let mb' = lookup fs mb
      in if dict_has (toc_items mb') key
         then (Inr (), mb'\<lparr>toc := Some (dict_del (toc_items mb') key), pending := True\<rparr>)
         else (Inl (KeyError key), mb'))"

text \<open>
  \<^verbatim>\<open>flush()\<close> does nothing when no change is pending. Otherwise it writes the
  messages of the table, in the order of \<^verbatim>\<open>sorted(self._toc.keys())\<close>, to a new file
  that replaces the old one, and keeps every message under its old key in the new
  table. A failing disk raises before anything is replaced.
\<close>

definition mbox_flush :: "disk \<Rightarrow> files \<Rightarrow> mbox \<Rightarrow> (error + unit) \<times> mbox \<times> files" where
  "mbox_flush d fs mb =
     (if \<not> pending mb then (Inr (), mb, fs)
      else case d of
        Failing \<Rightarrow> (Inl IOFailure, mb, fs)
      | Healthy \<Rightarrow>
          (let new_toc = concat (map (\<lambda>key. case map_of (toc_items mb) key of
                                              None \<Rightarrow> [] | Some m \<Rightarrow> [(key, m)])
                                     (sort (map fst (toc_items mb))))
           in (Inr (), mb\<lparr>toc := Some new_toc, pending := False\<rparr>,
               fs(path mb := File (map snd new_toc)))))"

section \<open>The mailbox store: \<^verbatim>\<open>IndexedMboxMailbox\<close>\<close>

text \<open>
  The fields of a store object that its operations on messages read and write. Its
  list of listeners plays no part in them and is left out.
\<close>

record store =
  folder_name :: pystr
  mbox_file :: pystr
  mbox :: mbox
  messages :: "message list"
  index :: "(int \<times> message) list"

text \<open>
  \<^verbatim>\<open>_load_index\<close>: \<^verbatim>\<open>self.messages = list(self.mbox)\<close>, then
  \<^verbatim>\<open>self.index = {i + 1: msg for i, msg in enumerate(self.messages)}\<close>.
\<close>

definition load_index :: "files \<Rightarrow> store \<Rightarrow> store" where
  "load_index fs s =
     (case mbox_list fs (mbox s) of
        (ms, mb') \<Rightarrow>
          s\<lparr>mbox := mb', messages := ms,
            index := map (\<lambda>(i, msg). (i + 1, msg)) (enumerate_from 0 ms)\<rparr>)"

text \<open>\<^verbatim>\<open>os.path.join\<close> on POSIX, for two components.\<close>

definition path_join :: "pystr \<Rightarrow> pystr \<Rightarrow> pystr" where
  "path_join a b =
     (if startswith b (str ''/'') then b
      else if a = [] \<or> last a = 47 then a @ b
      else a @ str ''/'' @ b)"

definition MBOX_DIR :: pystr where
  "MBOX_DIR = str ''mailboxes''"

text \<open>
  The path of a folder's message file:
  \<^verbatim>\<open>os.path.join(MBOX_DIR, f"{folder_name}.mbox")\<close>.
\<close>

definition mbox_path :: "pystr \<Rightarrow> pystr" where
  "mbox_path name = path_join MBOX_DIR (name @ str ''.mbox'')"

text \<open>
  The constructor \<^verbatim>\<open>IndexedMboxMailbox(folder_name)\<close>. When \<^verbatim>\<open>mailbox.mbox\<close>
  raises, there is no store.
\<close>

definition IndexedMboxMailbox :: "pystr \<Rightarrow> files \<Rightarrow> error + store \<times> files" where
  "IndexedMboxMailbox name fs =
     (case mbox_init (mbox_path name) fs of
        Inl e \<Rightarrow> Inl e
      | Inr (mb, fs') \<Rightarrow>
          Inr (load_index fs' \<lparr>folder_name = name, mbox_file = mbox_path name, mbox = mb,
                                messages = [], index = []\<rparr>, fs'))"

definition getMessageCount :: "store \<Rightarrow> error + nat" where
  "getMessageCount s = Inr (length (messages s))"

definition fetchMessage :: "int \<Rightarrow> store \<Rightarrow> error + bytes" where
  "fetchMessage message_id s =
     (case map_of (index s) message_id of
        Some msg \<Rightarrow> (case as_string msg of Inl e \<Rightarrow> Inl e | Inr flat \<Rightarrow> encode flat)
      | None \<Rightarrow> Inl NotFound)"

text \<open>
  \<^verbatim>\<open>deleteMessage\<close> returns its result together with the store and the disk as it
  leaves them, also when an exception ends it: what \<^verbatim>\<open>del\<close> and \<^verbatim>\<open>flush\<close> have
  done to \<^verbatim>\<open>self.mbox\<close> by then stays done.
\<close>

definition deleteMessage ::
  "disk \<Rightarrow> int \<Rightarrow> store \<Rightarrow> files \<Rightarrow> (error + bool) \<times> store \<times> files" where
  "deleteMessage d message_id s fs =
     (if dict_has (index s) message_id then
        (case mbox_delitem (message_id - 1) fs (mbox s) of
           (Inl e, mb1) \<Rightarrow> (Inl e, s\<lparr>mbox := mb1\<rparr>, fs)
         | (Inr u, mb1) \<Rightarrow>
             (case mbox_flush d fs mb1 of
                (Inl e, mb2, fs2) \<Rightarrow> (Inl e, s\<lparr>mbox := mb2\<rparr>, fs2)
              | (Inr u', mb2, fs2) \<Rightarrow> (Inr True, load_index fs2 (s\<lparr>mbox := mb2\<rparr>), fs2)))
      else (Inl NotFound, s, fs))"

subsection \<open>Search\<close>

text \<open>
  The condition of the loop body, for one message:
  \<^verbatim>\<open>query.lower() in msg.get("subject", "").lower() or
  query.lower() in msg.get_payload(decode=True).decode(errors='ignore').lower()\<close>.
  A \<^verbatim>\<open>Header\<close> object has no method \<^verbatim>\<open>lower\<close> and \<^verbatim>\<open>None\<close> has no method
  \<^verbatim>\<open>decode\<close>: both calls raise \<^verbatim>\<open>AttributeError\<close>. The right operand of
  \<^verbatim>\<open>or\<close> is evaluated only when the left one is false.
\<close>

definition get_subject :: "message \<Rightarrow> header_value" where
  "get_subject msg = (case subject msg of None \<Rightarrow> Str [] | Some v \<Rightarrow> v)"

definition matches :: "(pystr \<Rightarrow> pystr) \<Rightarrow> pystr \<Rightarrow> message \<Rightarrow> error + bool" where
  "matches lower query msg =
     (case get_subject msg of
        Header \<Rightarrow> Inl AttributeError
      | Str subj \<Rightarrow>
          if str_in (lower query) (lower subj) then Inr True
          else (case payload msg of
                  None \<Rightarrow> Inl AttributeError
                | Some body \<Rightarrow> Inr (str_in (lower query) (lower (decode_ignore body)))))"

text \<open>The loop over \<^verbatim>\<open>self.index.items()\<close>, with \<open>results\<close> as its accumulator.\<close>

fun search_loop ::
  "(pystr \<Rightarrow> pystr) \<Rightarrow> pystr \<Rightarrow> (int \<times> message) list \<Rightarrow> int list \<Rightarrow> error + int list" where
  "search_loop lower query [] results = Inr results"
| "search_loop lower query ((msg_id, msg) # items) results =
     (case matches lower query msg of
        Inl e \<Rightarrow> Inl e
      | Inr found \<Rightarrow>
          search_loop lower query items (if found then results @ [msg_id] else results))"

definition search :: "(pystr \<Rightarrow> pystr) \<Rightarrow> pystr \<Rightarrow> store \<Rightarrow> error + int list" where
  "search lower query s = search_loop lower query (index s) []"

section \<open>The account directory: \<^verbatim>\<open>MboxUser\<close>\<close>

text \<open>
  Stores are objects: \<^verbatim>\<open>select\<close> hands out a reference, and two references to
  the same object see each other's changes. The heap is the list of the stores
  allocated so far and a reference is a position in it; a new object goes to the end.
\<close>

type_synonym heap = "store list"

record MboxUser =
  mailboxes :: "(pystr \<times> nat) list"

definition new_mailbox :: "pystr \<Rightarrow> heap \<Rightarrow> files \<Rightarrow> error + nat \<times> heap \<times> files" where
  "new_mailbox name h fs =
     (case IndexedMboxMailbox name fs of
        Inl e \<Rightarrow> Inl e
      | Inr (s, fs') \<Rightarrow> Inr (length h, h @ [s], fs'))"

text \<open>\<^verbatim>\<open>MboxUser()\<close>: \<^verbatim>\<open>self.mailboxes = {"INBOX": IndexedMboxMailbox("INBOX")}\<close>.\<close>

definition MboxUser_init :: "heap \<Rightarrow> files \<Rightarrow> error + MboxUser \<times> heap \<times> files" where
  "MboxUser_init h fs =
     (case new_mailbox (str ''INBOX'') h fs of
        Inl e \<Rightarrow> Inl e
      | Inr (r, h', fs') \<Rightarrow> Inr (\<lparr>mailboxes = [(str ''INBOX'', r)]\<rparr>, h', fs'))"

text \<open>
  \<^verbatim>\<open>select(name)\<close> decodes the name, registers a new store when
  \<^verbatim>\<open>folder_name not in self.mailboxes\<close>, and returns
  \<^verbatim>\<open>self.mailboxes[folder_name]\<close>: the reference just stored, or the one found.
  An exception of the decoding or of the constructor leaves \<^verbatim>\<open>select\<close> before
  anything is registered.
\<close>

definition select ::
  "bytes \<Rightarrow> MboxUser \<Rightarrow> heap \<Rightarrow> files \<Rightarrow> (error + nat) \<times> MboxUser \<times> heap \<times> files" where
  "select name u h fs =
     (case decode name of
        Inl e \<Rightarrow> (Inl e, u, h, fs)
      | Inr folder \<Rightarrow>
          (case map_of (mailboxes u) folder of
             None \<Rightarrow>
               (case new_mailbox folder h fs of
                  Inl e \<Rightarrow> (Inl e, u, h, fs)
                | Inr (r, h', fs') \<Rightarrow>
                    (Inr r, u\<lparr>mailboxes := dict_set (mailboxes u) folder r\<rparr>, h', fs'))
           | Some r \<Rightarrow> (Inr r, u, h, fs)))"

definition listMailboxes :: "MboxUser \<Rightarrow> pystr list" where
  "listMailboxes u = map fst (mailboxes u)"

text \<open>
  \<^verbatim>\<open>create(path)\<close>: \<^verbatim>\<open>self.mailboxes[path] = IndexedMboxMailbox(path)\<close>, where an
  exception of the constructor comes before the assignment.
\<close>

definition create ::
  "pystr \<Rightarrow> MboxUser \<Rightarrow> heap \<Rightarrow> files \<Rightarrow> (error + bool) \<times> MboxUser \<times> heap \<times> files" where
  "create p u h fs =
     (case new_mailbox p h fs of
        Inl e \<Rightarrow> (Inl e, u, h, fs)
      | Inr (r, h', fs') \<Rightarrow>
          (Inr True, u\<lparr>mailboxes := dict_set (mailboxes u) p r\<rparr>, h', fs'))"

definition delete :: "pystr \<Rightarrow> MboxUser \<Rightarrow> (error + bool) \<times> MboxUser" where
  "delete p u =
     (if dict_has (mailboxes u) p
      then (Inr True, u\<lparr>mailboxes := dict_del (mailboxes u) p\<rparr>)
      else (Inl (MailboxException ''Mailbox not found''), u))"

section \<open>Properties\<close>

subsection \<open>States and messages the properties speak about\<close>

text \<open>
  A history of a store: any sequence of \<^verbatim>\<open>deleteMessage\<close> calls, each with its
  identifier and with a disk that works or fails. A call that ends with an error
  leaves the store as the error left it, and the next call goes on from there.
\<close>

fun run_deletes :: "(disk \<times> int) list \<Rightarrow> store \<Rightarrow> files \<Rightarrow> store \<times> files" where
  "run_deletes [] s fs = (s, fs)"
| "run_deletes ((d, message_id) # calls) s fs =
     (case deleteMessage d message_id s fs of (r, s', fs') \<Rightarrow> run_deletes calls s' fs')"

text \<open>The index that \<^verbatim>\<open>_load_index\<close> derives from a list of messages.\<close>

definition index_of :: "message list \<Rightarrow> (int \<times> message) list" where
  "index_of ms = map (\<lambda>(i, msg). (i + 1, msg)) (enumerate_from 0 ms)"

text \<open>
  A store in step with the disk: its index numbers its messages from 1, and its
  messages are those of its file, the one its \<^verbatim>\<open>mbox\<close> object has open.
\<close>

definition in_step :: "store \<Rightarrow> files \<Rightarrow> bool" where
  "in_step s fs =
     (index s = index_of (messages s) \<and> fs (mbox_file s) = File (messages s)
      \<and> path (mbox s) = mbox_file s)"

text \<open>
  A message that \<^verbatim>\<open>search\<close> can read: its subject is absent or a \<^verbatim>\<open>str\<close>, and it
  has a body of bytes. For such a message, the subject text and the body searched.
\<close>

definition readable :: "message \<Rightarrow> bool" where
  "readable msg = (get_subject msg \<noteq> Header \<and> payload msg \<noteq> None)"

definition subject_text :: "message \<Rightarrow> pystr" where
  "subject_text msg = (case get_subject msg of Str t \<Rightarrow> t | Header \<Rightarrow> [])"

definition body_text :: "message \<Rightarrow> pystr" where
  "body_text msg = (case payload msg of None \<Rightarrow> [] | Some b \<Rightarrow> decode_ignore b)"

definition hit :: "(pystr \<Rightarrow> pystr) \<Rightarrow> pystr \<Rightarrow> message \<Rightarrow> bool" where
  "hit lower query msg =
     (str_in (lower query) (lower (subject_text msg))
      \<or> str_in (lower query) (lower (body_text msg)))"

text \<open>
  Messages for the examples. Each record holds what the library returns for the
  message when the bytes \<open>raw\<close> have been appended to an mbox file with
  \<^verbatim>\<open>mailbox.mbox.add\<close> and the file is read again. \<open>nl\<close> is the line feed.
  \<^item> \<open>msg_A\<close>, \<open>msg_B\<close>, \<open>msg_C\<close> and \<open>msg_invoice\<close> are ASCII messages with a
    subject and one line of body.
  \<^item> \<open>msg_multipart\<close> has parts instead of a body.
  \<^item> \<open>msg_latin1_subject\<close> has the subject \<^verbatim>\<open>caf\xe9\<close>, a raw non-ASCII byte, which
    the library hands out as a \<^verbatim>\<open>Header\<close> object.
  \<^item> \<open>msg_binary\<close> has the body \<^verbatim>\<open>\xffthanks\<close>: the first byte is no UTF-8, and
    \<^verbatim>\<open>as_string\<close> puts \<^verbatim>\<open>U+FFFD\<close> in its place.
  \<^item> \<open>msg_unknown_charset\<close> declares the character set \<^verbatim>\<open>foo\<close> for a body with
    the byte \<^verbatim>\<open>FF\<close>; \<^verbatim>\<open>as_string\<close> raises \<^verbatim>\<open>LookupError\<close> on it.
\<close>

definition nl :: string where
  "nl = [CHR 0x0A]"

definition msg_A :: message where
  "msg_A =
     \<lparr>raw = ''Subject: A'' @ nl @ nl @ ''first'' @ nl,
      subject = Some (Str (str ''A'')),
      payload = Some (''first'' @ nl),
      as_string = Inr (str (''Subject: A'' @ nl @ nl @ ''first'' @ nl))\<rparr>"

definition msg_B :: message where
  "msg_B =
     \<lparr>raw = ''Subject: B'' @ nl @ nl @ ''second'' @ nl,
      subject = Some (Str (str ''B'')),
      payload = Some (''second'' @ nl),
      as_string = Inr (str (''Subject: B'' @ nl @ nl @ ''second'' @ nl))\<rparr>"

definition msg_C :: message where
  "msg_C =
     \<lparr>raw = ''Subject: C'' @ nl @ nl @ ''third'' @ nl,
      subject = Some (Str (str ''C'')),
      payload = Some (''third'' @ nl),
      as_string = Inr (str (''Subject: C'' @ nl @ nl @ ''third'' @ nl))\<rparr>"

definition msg_invoice :: message where
  "msg_invoice =
     \<lparr>raw = ''Subject: Invoice #4'' @ nl @ nl @ ''thanks'' @ nl,
      subject = Some (Str (str ''Invoice #4'')),
      payload = Some (''thanks'' @ nl),
      as_string = Inr (str (''Subject: Invoice #4'' @ nl @ nl @ ''thanks'' @ nl))\<rparr>"

definition msg_multipart :: message where
  "msg_multipart =
     \<lparr>raw = ''Subject: hello'' @ nl
            @ ''Content-Type: multipart/mixed; boundary=x'' @ nl @ nl
            @ ''--x'' @ nl @ nl @ ''part'' @ nl @ ''--x--'' @ nl,
      subject = Some (Str (str ''hello'')),
      payload = None,
      as_string = Inr (str (''Subject: hello'' @ nl
            @ ''Content-Type: multipart/mixed; boundary=x'' @ nl @ nl
            @ ''--x'' @ nl @ nl @ ''part'' @ nl @ ''--x--'' @ nl))\<rparr>"

definition msg_latin1_subject :: message where
  "msg_latin1_subject =
     \<lparr>raw = ''Subject: caf'' @ [CHR 0xE9] @ nl @ nl @ ''hello'' @ nl,
      subject = Some Header,
      payload = Some (''hello'' @ nl),
      as_string = Inr (str (''Subject: =?unknown-8bit?q?caf=E9?='' @ nl @ nl @ ''hello'' @ nl))\<rparr>"

definition msg_binary :: message where
  "msg_binary =
     \<lparr>raw = ''Subject: s'' @ nl @ nl @ [CHR 0xFF] @ ''thanks'' @ nl,
      subject = Some (Str (str ''s'')),
      payload = Some ([CHR 0xFF] @ ''thanks'' @ nl),
      as_string = Inr (str (''Subject: s'' @ nl @ nl) @ [65533] @ str (''thanks'' @ nl))\<rparr>"

definition msg_unknown_charset :: message where
  "msg_unknown_charset =
     \<lparr>raw = ''Content-Type: text/plain; charset=foo'' @ nl @ nl @ [CHR 0xFF] @ nl,
      subject = None,
      payload = Some ([CHR 0xFF] @ nl),
      as_string = Inl LookupError\<rparr>"

text \<open>A disk whose only file is the message file of folder \<open>name\<close>, holding \<open>ms\<close>.\<close>

definition disk_with :: "pystr \<Rightarrow> message list \<Rightarrow> files" where
  "disk_with name ms = (\<lambda>p. Absent)(mbox_path name := File ms)"

text \<open>
  The same disk without the directory \<^verbatim>\<open>mailboxes/nodir\<close>: the message file of the
  folder \<^verbatim>\<open>nodir/x\<close> can neither be opened nor created, and \<^verbatim>\<open>open\<close> raises
  \<^verbatim>\<open>FileNotFoundError\<close>, an \<^verbatim>\<open>OSError\<close>.
\<close>

definition disk_without_dir :: files where
  "disk_without_dir = (\<lambda>p. Absent)(mbox_path (str ''nodir/x'') := Unopenable OSError)"

text \<open>
  What a constructor has built: the store and the disk, and an empty store on an
  empty disk where it has raised.
\<close>

definition built :: "error + store \<times> files \<Rightarrow> store \<times> files" where
  "built r =
     (case r of
        Inr sf \<Rightarrow> sf
      | Inl e \<Rightarrow>
          (\<lparr>folder_name = [], mbox_file = [],
            mbox = \<lparr>path = [], toc = None, pending = False\<rparr>, messages = [], index = []\<rparr>,
           (\<lambda>p. Absent)))"

text \<open>The store that the constructor builds for folder \<open>F\<close> over the messages \<open>ms\<close>.\<close>

definition folder_of :: "message list \<Rightarrow> store" where
  "folder_of ms = fst (built (IndexedMboxMailbox (str ''F'') (disk_with (str ''F'') ms)))"

definition disk_of :: "message list \<Rightarrow> files" where
  "disk_of ms = snd (built (IndexedMboxMailbox (str ''F'') (disk_with (str ''F'') ms)))"

subsection \<open>UTF-8: decoding gives back what was encoded\<close>

text \<open>
  Every string of scalar values has an encoding, and the strict decoder reads the
  string back from it: each folder name is the decoding of some byte string.
\<close>

lemma utf8_items_encode_cp:
  assumes "scalar c"
  shows "\<exists>bs. encode_cp c = Some bs \<and> list_all (\<lambda>b. b < 256) bs
              \<and> utf8_items (bs @ rest) = Some c # utf8_items rest"
proof -
  define r where "r = c mod 64"
  define x where "x = c div 64"
  define m where "m = x mod 64"
  define p where "p = x div 64"
  define n where "n = p mod 64"
  define q where "q = p div 64"
  have c: "c = x * 64 + r" and r: "r < 64" by (simp_all add: x_def r_def)
  have x: "x = p * 64 + m" and m: "m < 64" by (simp_all add: p_def m_def)
  have p: "p = q * 64 + n" and n: "n < 64" by (simp_all add: q_def n_def)
  have p': "c div 4096 = p" by (simp add: p_def x_def div_mult2_eq [symmetric])
  have q': "c div 262144 = q" by (simp add: q_def p_def x_def div_mult2_eq [symmetric])
  have m': "(c div 64) mod 64 = m" by (simp add: m_def x_def)
  have n': "(c div 4096) mod 64 = n" by (simp add: n_def p')
  consider "c < 128" | "128 \<le> c" "c < 2048" | "2048 \<le> c" "c < 65536" | "65536 \<le> c"
    by linarith
  then show ?thesis
  proof cases
    case 1
    then show ?thesis by (simp add: encode_cp_def utf8_step_def)
  next
    case 2
    with c r have "2 \<le> x" "x < 32" by linarith+
    with 2 c r show ?thesis
      by (simp add: encode_cp_def utf8_step_def is_cont_def x_def [symmetric] r_def [symmetric])
  next
    case 3
    with assms have ns: "c < 55296 \<or> 57344 \<le> c" by (simp add: scalar_def)
    from 3 c r x m have b: "p < 16" by linarith
    from 3 c r x m have z: "p = 0 \<longrightarrow> 32 \<le> m" by linarith
    from 3 ns c r x m have d: "p = 13 \<longrightarrow> m < 32" by linarith
    have v: "p * 4096 + m * 64 + r = c" using c x by simp
    from d v r have e: "p = 13 \<longrightarrow> c < 55296" by auto
    have f: "p \<noteq> 13 \<longrightarrow> c < 53248 \<or> 57344 \<le> c" using v m r b by auto
    from 3 ns b z d e f m r v show ?thesis
      by (auto simp: encode_cp_def utf8_step_def is_cont_def second_of_three_def
            p' m' r_def [symmetric])
  next
    case 4
    with assms have lt: "c < 1114112" by (simp add: scalar_def)
    from 4 lt c r x m p n have b: "q < 5" by linarith
    from 4 c r x m p n have z: "q = 0 \<longrightarrow> 16 \<le> n" by linarith
    from lt c r x m p n have d: "q = 4 \<longrightarrow> n < 16" by linarith
    have v: "q * 262144 + n * 4096 + m * 64 + r = c" using c x p by simp
    from 4 b z d n m r v show ?thesis
      by (auto simp: encode_cp_def utf8_step_def is_cont_def second_of_four_def
            q' n' m' r_def [symmetric])
  qed
qed


lemma of_char_char_of:
  "list_all (\<lambda>b. b < 256) bs \<Longrightarrow> map (of_char \<circ> (char_of :: nat \<Rightarrow> char)) bs = (bs :: nat list)"
  by (induction bs) auto

lemma utf8_items_encode:
  "list_all scalar t \<Longrightarrow> \<exists>b. encode t = Inr b \<and> utf8_items (map of_char b) = map Some t"
proof (induction t)
  case Nil
  then show ?case by simp
next
  case (Cons c t)
  then obtain b where b: "encode t = Inr b" "utf8_items (map of_char b) = map Some t" by auto
  from Cons.prems have "scalar c" by simp
  from utf8_items_encode_cp [OF this, of "map of_char b"]
  obtain bs where bs: "encode_cp c = Some bs" "list_all (\<lambda>b. b < 256) bs"
    "utf8_items (bs @ map of_char b) = Some c # utf8_items (map of_char b)" by blast
  from bs b show ?case by (simp add: of_char_char_of)
qed

lemma decode_encode:
  "list_all scalar t \<Longrightarrow> \<exists>b. encode t = Inr b \<and> decode b = Inr t"
proof -
  assume "list_all scalar t"
  from utf8_items_encode [OF this] obtain b where
    b: "encode t = Inr b" "utf8_items (map of_char b) = map Some t" by blast
  have "concat (map (\<lambda>item. case item of None \<Rightarrow> [] | Some c \<Rightarrow> [c]) (map Some t)) = t"
    by (induction t) auto
  with b show ?thesis by (auto simp: decode_def Let_def)
qed

subsection \<open>The \<^verbatim>\<open>in\<close> operator\<close>

text \<open>\<open>str_in q s\<close> holds exactly when \<open>q\<close> is a contiguous part of \<open>s\<close>.\<close>

lemma startswith_iff: "startswith s p \<longleftrightarrow> (\<exists>r. s = p @ r)"
  by (induction s p rule: startswith.induct) auto

lemma str_in_iff: "str_in q s \<longleftrightarrow> (\<exists>p r. s = p @ q @ r)"
proof (induction s)
  case Nil
  then show ?case by auto
next
  case (Cons x xs)
  show ?case
  proof
    assume "str_in q (x # xs)"
    then consider "startswith (x # xs) q" | "str_in q xs" by auto
    then show "\<exists>p r. x # xs = p @ q @ r"
    proof cases
      case 1
      then obtain r where "x # xs = q @ r" by (auto simp: startswith_iff)
      then have "x # xs = [] @ q @ r" by simp
      then show ?thesis by blast
    next
      case 2
      with Cons.IH obtain p r where "xs = p @ q @ r" by auto
      then have "x # xs = (x # p) @ q @ r" by simp
      then show ?thesis by blast
    qed
  next
    assume "\<exists>p r. x # xs = p @ q @ r"
    then obtain p r where e: "x # xs = p @ q @ r" by auto
    show "str_in q (x # xs)"
    proof (cases p)
      case Nil
      with e have "startswith (x # xs) q" by (auto simp: startswith_iff)
      then show ?thesis by simp
    next
      case (Cons y ys)
      with e have "xs = ys @ q @ r" by simp
      with Cons.IH have "str_in q xs" by auto
      then show ?thesis by simp
    qed
  qed
qed

subsection \<open>Dictionaries, enumeration and evaluation\<close>

lemma dict_has_iff: "dict_has d k \<longleftrightarrow> k \<in> fst ` set d"
  by (simp add: dict_has_def map_of_eq_None_iff)

lemma map_of_dict_set: "map_of (dict_set d k v) k = Some v"
proof (cases "map_of d k")
  case None
  then show ?thesis by (simp add: dict_set_def dict_has_def map_add_Some_iff)
next
  case (Some w)
  have "map_of d k \<noteq> None \<Longrightarrow>
          map_of (map (\<lambda>item. if fst item = k then (k, v) else item) d) k = Some v"
    by (induction d) auto
  with Some show ?thesis by (simp add: dict_set_def dict_has_def)
qed

lemma keys_dict_del: "map fst (dict_del d k) = filter (\<lambda>k'. k' \<noteq> k) (map fst d)"
  by (simp add: dict_del_def filter_map comp_def)

lemma keys_enumerate_from:
  "map fst (enumerate_from n xs) = map (\<lambda>k. n + int k) [0..<length xs]"
proof (induction xs arbitrary: n)
  case Nil
  then show ?case by simp
next
  case (Cons x xs)
  have "map (\<lambda>k. n + int k) [0..<length (x # xs)]
        = n # map (\<lambda>k. n + int k) (map Suc [0..<length xs])"
    by (simp add: upt_conv_Cons map_Suc_upt del: upt_Suc)
  also have "\<dots> = n # map (\<lambda>k. (n + 1) + int k) [0..<length xs]"
    by (simp add: comp_def add.assoc)
  finally show ?case using Cons.IH [of "n + 1"] by simp
qed

lemma values_enumerate_from: "map snd (enumerate_from n xs) = xs"
  by (induction xs arbitrary: n) auto

lemma enumerate_from_key_ge: "(k, v) \<in> set (enumerate_from n xs) \<Longrightarrow> n \<le> k"
  by (induction xs arbitrary: n) force+

lemma sorted_keys_enumerate_from: "sorted (map fst (enumerate_from n xs))"
proof (induction xs arbitrary: n)
  case Nil
  then show ?case by simp
next
  case (Cons x xs)
  have "\<forall>k \<in> set (map fst (enumerate_from (n + 1) xs)). n \<le> k"
    using enumerate_from_key_ge [of _ _ "n + 1" xs] by fastforce
  with Cons.IH [of "n + 1"] show ?case by simp
qed

lemma distinct_keys_enumerate_from: "distinct (map fst (enumerate_from n xs))"
proof (induction xs arbitrary: n)
  case Nil
  then show ?case by simp
next
  case (Cons x xs)
  have "n \<notin> set (map fst (enumerate_from (n + 1) xs))"
    using enumerate_from_key_ge [of n _ "n + 1" xs] by fastforce
  with Cons.IH [of "n + 1"] show ?case by simp
qed

lemma map_of_enumerate_from:
  "i < length xs \<Longrightarrow> map_of (enumerate_from n xs) (n + int i) = Some (xs ! i)"
proof (induction xs arbitrary: n i)
  case Nil
  then show ?case by simp
next
  case (Cons x xs)
  show ?case
  proof (cases i)
    case 0
    then show ?thesis by simp
  next
    case (Suc j)
    with Cons.prems have "j < length xs" by simp
    from Cons.IH [OF this, of "n + 1"] Suc show ?thesis by (simp add: add.assoc)
  qed
qed

lemma delete_from_enumerate:
  "i < length xs \<Longrightarrow>
     map snd (dict_del (enumerate_from n xs) (n + int i)) = take i xs @ drop (Suc i) xs"
proof (induction xs arbitrary: n i)
  case Nil
  then show ?case by simp
next
  case (Cons x xs)
  show ?case
  proof (cases i)
    case 0
    have "\<forall>item \<in> set (enumerate_from (n + 1) xs). fst item \<noteq> n"
      using enumerate_from_key_ge [of _ _ "n + 1" xs] by fastforce
    then have "filter (\<lambda>item. fst item \<noteq> n) (enumerate_from (n + 1) xs)
               = enumerate_from (n + 1) xs"
      by (simp add: filter_id_conv)
    with 0 show ?thesis by (simp add: dict_del_def values_enumerate_from)
  next
    case (Suc j)
    with Cons.prems have j: "j < length xs" by simp
    have e: "n + int i = (n + 1) + int j" using Suc by simp
    have "dict_del (enumerate_from n (x # xs)) ((n + 1) + int j)
          = (n, x) # dict_del (enumerate_from (n + 1) xs) ((n + 1) + int j)"
      by (simp add: dict_del_def)
    then show ?thesis
      unfolding e using Cons.IH [OF j, of "n + 1"] Suc by simp
  qed
qed

text \<open>Writing a table out in the order of its sorted keys gives the table back.\<close>

lemma rebuild_in_key_order:
  "distinct (map fst t) \<Longrightarrow>
     concat (map (\<lambda>item. case map_of t (fst item) of
                            None \<Rightarrow> [] | Some m \<Rightarrow> [(fst item, m)]) t) = t"
proof (induction t)
  case Nil
  then show ?case by simp
next
  case (Cons item t)
  obtain k v where item: "item = (k, v)" by (cases item)
  from Cons.prems item have k: "k \<notin> fst ` set t" and d: "distinct (map fst t)" by auto
  have "map (\<lambda>it. case map_of (item # t) (fst it) of
                     None \<Rightarrow> [] | Some m \<Rightarrow> [(fst it, m)]) t
        = map (\<lambda>it. case map_of t (fst it) of None \<Rightarrow> [] | Some m \<Rightarrow> [(fst it, m)]) t"
    using k item by (intro map_cong) auto
  then have "concat (map (\<lambda>it. case map_of (item # t) (fst it) of
                                  None \<Rightarrow> [] | Some m \<Rightarrow> [(fst it, m)]) t) = t"
    using Cons.IH [OF d] by (simp only:)
  then show ?case by (simp add: item)
qed

lemma keys_index_of: "map fst (index_of ms) = map (\<lambda>k. int k + 1) [0..<length ms]"
proof -
  have "map fst (index_of ms) = map (\<lambda>i. i + 1) (map fst (enumerate_from 0 ms))"
    by (simp add: index_of_def comp_def case_prod_unfold)
  then show ?thesis by (simp add: keys_enumerate_from comp_def)
qed

lemma key_set_index_of: "fst ` set (index_of ms) = {1..int (length ms)}"
proof -
  have "fst ` set (index_of ms) = set (map fst (index_of ms))" by simp
  also have "\<dots> = (\<lambda>k. int k + 1) ` {0..<length ms}"
    by (simp only: keys_index_of set_map set_upt)
  also have "\<dots> = {1..int (length ms)}"
  proof (rule set_eqI)
    fix i :: int
    show "i \<in> (\<lambda>k. int k + 1) ` {0..<length ms} \<longleftrightarrow> i \<in> {1..int (length ms)}"
    proof
      assume "i \<in> (\<lambda>k. int k + 1) ` {0..<length ms}"
      then show "i \<in> {1..int (length ms)}" by auto
    next
      assume "i \<in> {1..int (length ms)}"
      then have "i = int (nat (i - 1)) + 1" "nat (i - 1) < length ms" by auto
      then show "i \<in> (\<lambda>k. int k + 1) ` {0..<length ms}"
        by (metis atLeastLessThan_iff image_eqI zero_le)
    qed
  qed
  finally show ?thesis .
qed

lemma map_of_index_of: "i < length ms \<Longrightarrow> map_of (index_of ms) (int i + 1) = Some (ms ! i)"
proof -
  assume a: "i < length ms"
  have shift: "map_of (map (\<lambda>(k, v). (k + 1, v)) xs) (int i + 1) = map_of xs (int i)"
    for xs :: "(int \<times> message) list"
    by (induction xs) auto
  have "map_of (index_of ms) (int i + 1) = map_of (enumerate_from 0 ms) (int i)"
    by (simp add: index_of_def shift)
  with map_of_enumerate_from [OF a, of 0] show ?thesis by simp
qed

lemma char_of_nat_eval:
  "char_of (n::nat) = Char (odd n) (odd (n div 2)) (odd (n div 4)) (odd (n div 8))
                           (odd (n div 16)) (odd (n div 32)) (odd (n div 64)) (odd (n div 128))"
  by (simp add: char_of_def bit_iff_odd)

lemmas store_defs =
  IndexedMboxMailbox_def mbox_path_def mbox_init_def load_index_def mbox_list_def lookup_def
  generate_toc_def contents_def toc_items_def deleteMessage_def mbox_delitem_def mbox_flush_def
  dict_has_def dict_del_def path_join_def MBOX_DIR_def str_def Let_def

lemmas example_defs =
  folder_of_def disk_of_def built_def disk_with_def nl_def msg_A_def msg_B_def msg_C_def
  msg_invoice_def msg_multipart_def msg_latin1_subject_def msg_binary_def
  msg_unknown_charset_def

lemmas search_defs =
  search_def matches_def get_subject_def ascii_lower_def lower_cp_def decode_ignore_def
  utf8_step_def is_cont_def second_of_three_def second_of_four_def

lemma lowers_asciiD:
  "lowers_ascii lower \<Longrightarrow> list_all (\<lambda>c. c < 128) s \<Longrightarrow> lower s = ascii_lower s"
  by (simp add: lowers_ascii_def)

lemma lowers_ascii_ascii_lower: "lowers_ascii ascii_lower"
  by (simp add: lowers_ascii_def)

subsection \<open>The store after loading and after a delete\<close>

lemma constructor_opens:
  "can_open fs (mbox_path name) \<Longrightarrow> \<exists>s fs'. IndexedMboxMailbox name fs = Inr (s, fs')"
  by (auto simp: can_open_def IndexedMboxMailbox_def mbox_init_def split: entry.splits)

lemma constructor_raises:
  "fs (mbox_path name) = Unopenable e \<Longrightarrow> IndexedMboxMailbox name fs = Inl e"
  by (simp add: IndexedMboxMailbox_def mbox_init_def)

lemma constructor_messages:
  "IndexedMboxMailbox name fs = Inr (s, fs') \<Longrightarrow>
     mbox_file s = mbox_path name
     \<and> mbox s = \<lparr>path = mbox_file s, toc = Some (enumerate_from 0 (messages s)), pending = False\<rparr>
     \<and> fs' (mbox_file s) = File (messages s)
     \<and> index s = index_of (messages s)
     \<and> messages s = contents fs (mbox_file s)"
  by (auto simp: IndexedMboxMailbox_def mbox_init_def load_index_def mbox_list_def Let_def
        lookup_def generate_toc_def contents_def toc_items_def values_enumerate_from index_of_def
      split: entry.splits)

lemma folder_built:
  "IndexedMboxMailbox (str ''F'') (disk_with (str ''F'') ms) = Inr (folder_of ms, disk_of ms)"
  by (simp add: folder_of_def disk_of_def built_def disk_with_def IndexedMboxMailbox_def
        mbox_init_def)

lemma constructor_in_step: "IndexedMboxMailbox name fs = Inr (s, fs') \<Longrightarrow> in_step s fs'"
proof -
  assume "IndexedMboxMailbox name fs = Inr (s, fs')"
  note m = constructor_messages [OF this]
  from m have "mbox s = \<lparr>path = mbox_file s, toc = Some (enumerate_from 0 (messages s)),
                         pending = False\<rparr>" by blast
  then have "path (mbox s) = mbox_file s" by simp
  moreover from m have "index s = index_of (messages s)" by blast
  moreover from m have "fs' (mbox_file s) = File (messages s)" by blast
  ultimately show ?thesis by (simp only: in_step_def)
qed

lemma deleteMessage_in_step:
  "in_step s fs \<Longrightarrow> deleteMessage d message_id s fs = (r, s', fs') \<Longrightarrow> in_step s' fs'"
  by (auto simp: in_step_def deleteMessage_def mbox_delitem_def mbox_flush_def Let_def
        load_index_def index_of_def mbox_list_def lookup_def toc_items_def generate_toc_def
      split: if_splits prod.splits sum.splits disk.splits option.splits)

lemma run_deletes_in_step:
  "in_step s fs \<Longrightarrow> run_deletes calls s fs = (s', fs') \<Longrightarrow> in_step s' fs'"
proof (induction calls arbitrary: s fs)
  case Nil
  then show ?case by simp
next
  case (Cons call calls)
  obtain d message_id where call: "call = (d, message_id)" by (cases call)
  obtain r s1 fs1 where del: "deleteMessage d message_id s fs = (r, s1, fs1)"
    by (cases "deleteMessage d message_id s fs")
  from deleteMessage_in_step [OF Cons.prems(1) del] have "in_step s1 fs1" .
  moreover from Cons.prems(2) call del have "run_deletes calls s1 fs1 = (s', fs')" by simp
  ultimately show ?case by (rule Cons.IH)
qed

text \<open>
  The first delete on a freshly loaded store does what the identifier says: the key of a
  message in the table is still its position in the file.
\<close>

lemma first_delete:
  assumes c: "IndexedMboxMailbox name fs = Inr (s, fs1)"
      and i: "i < length (messages s)"
      and del: "deleteMessage Healthy (int i + 1) s fs1 = (r, s', fs')"
  shows "r = Inr True \<and> messages s' = take i (messages s) @ drop (Suc i) (messages s)
         \<and> index s' = index_of (messages s') \<and> fs' (mbox_file s) = File (messages s')"
proof -
  let ?ms = "messages s"
  let ?t = "enumerate_from 0 ?ms"
  have mb: "mbox s = \<lparr>path = mbox_file s, toc = Some ?t, pending = False\<rparr>"
    using constructor_messages [OF c] by simp
  have idx: "index s = index_of ?ms" using constructor_messages [OF c] by simp
  have has_id: "dict_has (index s) (int i + 1)"
    using map_of_index_of [OF i] idx by (simp add: dict_has_def)
  have has_key: "dict_has ?t (int i)"
    using map_of_enumerate_from [OF i, of 0] by (simp add: dict_has_def)
  let ?t' = "dict_del ?t (int i)"
  have "sorted (map fst ?t')" "distinct (map fst ?t')"
    using sorted_keys_enumerate_from [of 0 ?ms] distinct_keys_enumerate_from [of 0 ?ms]
    by (simp_all add: keys_dict_del sorted_wrt_filter)
  then have new_toc:
    "concat (map (\<lambda>key. case map_of ?t' key of None \<Rightarrow> [] | Some m \<Rightarrow> [(key, m)])
                 (sort (map fst ?t'))) = ?t'"
    by (simp add: sorted_sort_id rebuild_in_key_order comp_def)
  have vals: "map snd ?t' = take i ?ms @ drop (Suc i) ?ms"
    using delete_from_enumerate [OF i, of 0] by simp
  from del show ?thesis
    using has_id has_key new_toc vals
    by (auto simp: deleteMessage_def mb mbox_delitem_def mbox_flush_def lookup_def toc_items_def
          Let_def load_index_def mbox_list_def index_of_def)
qed

section \<open>The claims\<close>

text \<open>The example of the specification: deleting identifier 2 from \<open>[A, B, C]\<close>.\<close>

lemma delete_middle_example:
  "(case deleteMessage Healthy 2 (folder_of [msg_A, msg_B, msg_C])
                                (disk_of [msg_A, msg_B, msg_C]) of
      (r, s, fs) \<Rightarrow>
        r = Inr True \<and> messages s = [msg_A, msg_C] \<and> index s = [(1, msg_A), (2, msg_C)]
        \<and> fs (mbox_file s) = File [msg_A, msg_C])"
  by (simp add: store_defs example_defs)

text \<open>
  C1. For every identifier in the index, \<^verbatim>\<open>deleteMessage\<close> succeeds and leaves exactly
  the other messages, in their order, renumbered from 1, also when it follows an
  earlier delete on the same folder. The code does not do that after an earlier delete.
  \<^verbatim>\<open>deleteMessage\<close> removes the table entry with key \<^verbatim>\<open>message_id - 1\<close>, and
  \<^verbatim>\<open>flush\<close> keeps the keys of the messages that stay, while the index is renumbered.
  On the folder \<open>[A, B, C]\<close>, after deleting identifier 1 the index is \<open>[B, C]\<close> with
  identifiers 1 and 2; deleting identifier 2 then removes \<open>B\<close>, not \<open>C\<close>, and deleting
  identifier 1 raises \<^verbatim>\<open>KeyError\<close> and removes nothing.
\<close>

theorem delete_after_delete_uses_stale_key:
  "(case deleteMessage Healthy 1 (folder_of [msg_A, msg_B, msg_C])
                                (disk_of [msg_A, msg_B, msg_C]) of
      (r1, s1, fs1) \<Rightarrow>
        r1 = Inr True \<and> index s1 = [(1, msg_B), (2, msg_C)]
        \<and> (case deleteMessage Healthy 2 s1 fs1 of
              (r2, s2, fs2) \<Rightarrow>
                r2 = Inr True \<and> index s2 = [(1, msg_C)] \<and> index s2 \<noteq> [(1, msg_B)])
        \<and> (case deleteMessage Healthy 1 s1 fs1 of
              (r3, s3, fs3) \<Rightarrow>
                r3 = Inl (KeyError 0) \<and> index s3 = [(1, msg_B), (2, msg_C)]))"
  by (simp add: store_defs example_defs)

text \<open>
  Two searches for \<^verbatim>\<open>thanks\<close>, for every \<^verbatim>\<open>str.lower\<close> that does to ASCII text
  what Python's does: the message with body \<^verbatim>\<open>\xffthanks\<close> is found, and the
  multipart message makes the search raise.
\<close>

lemma search_thanks:
  assumes "lowers_ascii lower"
  shows "search lower (str ''thanks'') (folder_of [msg_binary]) = Inr [1]
         \<and> search lower (str ''thanks'') (folder_of [msg_multipart]) = Inl AttributeError"
proof -
  note l = lowers_asciiD [OF assms]
  show ?thesis
    by (simp add: store_defs example_defs search_defs l)
qed

text \<open>
  C2, as stated, fails twice. A payload that is not valid UTF-8 is not set aside: the
  store decodes it with \<^verbatim>\<open>errors='ignore'\<close>, which drops the malformed bytes and
  searches what remains, so the message with body \<^verbatim>\<open>\xffthanks\<close> is found by the
  query \<^verbatim>\<open>thanks\<close>. And a multipart message, which has no byte payload, makes
  \<^verbatim>\<open>search\<close> raise \<^verbatim>\<open>AttributeError\<close> when its subject does not match. All the
  strings lower-cased here are ASCII, on which \<open>ascii_lower\<close> is \<^verbatim>\<open>str.lower\<close>.
\<close>

theorem search_undecodable_payload_counterexample:
  "payload msg_binary = Some ([CHR 0xFF] @ ''thanks'' @ nl)
   \<and> decode ([CHR 0xFF] @ ''thanks'' @ nl) = Inl UnicodeDecodeError
   \<and> search ascii_lower (str ''thanks'') (folder_of [msg_binary]) = Inr [1]
   \<and> search ascii_lower (str ''thanks'') (folder_of [msg_multipart]) = Inl AttributeError"
  using search_thanks [OF lowers_ascii_ascii_lower]
  by (simp add: msg_binary_def nl_def decode_def utf8_step_def)

text \<open>The loop of \<^verbatim>\<open>search\<close> over messages that it can read.\<close>

lemma search_loop_readable:
  "list_all readable (map snd items) \<Longrightarrow>
     search_loop lower query items results
     = Inr (results @ map fst (filter (\<lambda>(i, msg). hit lower query msg) items))"
proof (induction items arbitrary: results)
  case Nil
  then show ?case by simp
next
  case (Cons item items)
  obtain msg_id msg where item: "item = (msg_id, msg)" by (cases item)
  from Cons.prems item have r: "readable msg" and rest: "list_all readable (map snd items)"
    by simp_all
  from r obtain subj body where "get_subject msg = Str subj" "payload msg = Some body"
    by (auto simp: readable_def) (metis header_value.exhaust)
  then have m: "matches lower query msg = Inr (hit lower query msg)"
    by (simp add: matches_def hit_def subject_text_def body_text_def)
  show ?case
    by (simp add: item m Cons.IH [OF rest])
qed

text \<open>
  C2, amended. For every folder whose messages all have a subject that is absent or a
  string and a body of bytes, and for every query, \<^verbatim>\<open>search\<close> raises nothing and
  returns, in the order of the index, the identifiers of the messages whose subject or
  whose body, decoded with the malformed bytes dropped, contains the query, when
  \<^verbatim>\<open>str.lower\<close> has been applied to both. This holds whatever function
  \<^verbatim>\<open>str.lower\<close> is.
\<close>

theorem search_readable:
  "list_all readable (map snd (index s)) \<Longrightarrow>
     search lower query s = Inr (map fst (filter (\<lambda>(i, msg). hit lower query msg) (index s)))"
  by (simp add: search_def search_loop_readable)

theorem search_readable_witness:
  "list_all readable (map snd (index (folder_of [msg_invoice, msg_A, msg_binary])))
   \<and> search ascii_lower (str ''THANKS'') (folder_of [msg_invoice, msg_A, msg_binary])
       = Inr [1, 3]"
proof -
  let ?s = "folder_of [msg_invoice, msg_A, msg_binary]"
  have r: "list_all readable (map snd (index ?s))"
    by (simp add: store_defs example_defs readable_def get_subject_def)
  have "map fst (filter (\<lambda>(i, msg). hit ascii_lower (str ''THANKS'') msg) (index ?s)) = [1, 3]"
    by (simp add: store_defs example_defs search_defs hit_def subject_text_def body_text_def)
  with search_readable [OF r, of ascii_lower "str ''THANKS''"] r show ?thesis by simp
qed

text \<open>
  C3, as stated, fails: \<^verbatim>\<open>fetchMessage\<close> does not hand back the bytes that were
  appended. It flattens the parsed message with \<^verbatim>\<open>as_string\<close> and encodes the text.
  For the message with body \<^verbatim>\<open>\xffthanks\<close> the byte \<^verbatim>\<open>FF\<close> comes back as the
  three bytes of \<^verbatim>\<open>U+FFFD\<close>; for the message with the unknown character set the
  flattening raises \<^verbatim>\<open>LookupError\<close> and no bytes are returned.
\<close>

theorem fetch_not_byte_identical_counterexample:
  "fetchMessage 1 (folder_of [msg_binary])
     = Inr (''Subject: s'' @ nl @ nl @ [CHR 0xEF, CHR 0xBF, CHR 0xBD] @ ''thanks'' @ nl)
   \<and> fetchMessage 1 (folder_of [msg_binary]) \<noteq> Inr (raw msg_binary)
   \<and> fetchMessage 1 (folder_of [msg_unknown_charset]) = Inl LookupError"
  by (simp add: store_defs example_defs fetchMessage_def encode_cp_def char_of_nat_eval)

text \<open>
  C3, amended. For every message \<open>M\<close> of a folder's message file, at position \<open>i\<close>
  (from 0), \<^verbatim>\<open>fetchMessage\<close> of the identifier \<open>i + 1\<close> after a fresh load gives
  the UTF-8 encoding of \<^verbatim>\<open>as_string\<close> of the parsed \<open>M\<close>, or the exception that
  \<^verbatim>\<open>as_string\<close> or the encoding raises. How these bytes compare with the bytes
  that were appended is left to the library that parses and flattens.
\<close>

theorem fetch_flattened:
  "IndexedMboxMailbox name fs = Inr (s, fs') \<Longrightarrow> fs (mbox_path name) = File ms \<Longrightarrow>
   i < length ms \<Longrightarrow>
     fetchMessage (int i + 1) s
       = (case as_string (ms ! i) of Inl e \<Rightarrow> Inl e | Inr flat \<Rightarrow> encode flat)"
proof -
  assume c: "IndexedMboxMailbox name fs = Inr (s, fs')"
    and f: "fs (mbox_path name) = File ms" and i: "i < length ms"
  from constructor_messages [OF c] f have "index s = index_of ms" by (simp add: contents_def)
  with map_of_index_of [OF i] show ?thesis by (simp add: fetchMessage_def)
qed

theorem fetch_flattened_witness:
  "fetchMessage 2 (folder_of [msg_A, msg_B]) = Inr (''Subject: B'' @ nl @ nl @ ''second'' @ nl)"
proof -
  have f: "disk_with (str ''F'') [msg_A, msg_B] (mbox_path (str ''F'')) = File [msg_A, msg_B]"
    by (simp add: disk_with_def)
  have i: "(1::nat) < length [msg_A, msg_B]" by simp
  have e: "(case as_string ([msg_A, msg_B] ! 1) of Inl e \<Rightarrow> Inl e | Inr flat \<Rightarrow> encode flat)
           = Inr (''Subject: B'' @ nl @ nl @ ''second'' @ nl)"
    by (simp add: example_defs str_def encode_cp_def char_of_nat_eval)
  from fetch_flattened [OF folder_built f i] e show ?thesis by simp
qed

text \<open>
  C4. \<^verbatim>\<open>search\<close> returns, in ascending order, exactly the identifiers of the
  messages whose subject or decoded body contains the query without regard to case,
  and an empty sequence, not an error, when nothing matches. The code does not do that
  on a folder with a multipart message: \<^verbatim>\<open>get_payload(decode=True)\<close> is
  \<^verbatim>\<open>None\<close> for it, and when its subject does not match, the call of \<^verbatim>\<open>decode\<close>
  raises \<^verbatim>\<open>AttributeError\<close>. Nothing in the folder below matches \<^verbatim>\<open>refund\<close>, and
  the search ends with the exception instead of the empty sequence, for every
  \<^verbatim>\<open>str.lower\<close> that does to ASCII text what Python's does.
\<close>

theorem search_raises_on_multipart:
  "lowers_ascii lower \<Longrightarrow>
     search lower (str ''refund'') (folder_of [msg_invoice, msg_multipart]) = Inl AttributeError"
proof -
  assume "lowers_ascii lower"
  note l = lowers_asciiD [OF this]
  show ?thesis
    by (simp add: store_defs example_defs search_defs l)
qed

theorem search_raises_on_multipart_witness:
  "search ascii_lower (str ''refund'') (folder_of [msg_invoice, msg_multipart])
   = Inl AttributeError"
  using search_raises_on_multipart [OF lowers_ascii_ascii_lower] .

text \<open>The example of the specification, on a folder that holds only that message.\<close>

lemma search_invoice_example:
  assumes "lowers_ascii lower"
  shows "search lower (str ''invoice'') (folder_of [msg_invoice]) = Inr [1]
   \<and> search lower (str ''THANKS'') (folder_of [msg_invoice]) = Inr [1]
   \<and> search lower (str ''refund'') (folder_of [msg_invoice]) = Inr []
   \<and> search lower (str ''refund'') (folder_of []) = Inr []"
proof -
  note l = lowers_asciiD [OF assms]
  show ?thesis
    by (simp add: store_defs example_defs search_defs l)
qed

text \<open>
  C5. Identifier density: for every folder, after loading and after every sequence of
  \<^verbatim>\<open>deleteMessage\<close> calls, whatever their results, the index numbers the messages
  of the message file from 1 in file order, its identifiers are exactly 1 to the
  message count, and \<^verbatim>\<open>getMessageCount\<close> returns that count without failing.
\<close>

theorem identifier_density:
  "IndexedMboxMailbox name fs = Inr (s0, fs0) \<Longrightarrow> run_deletes calls s0 fs0 = (s, fs') \<Longrightarrow>
     fs' (mbox_file s) = File (messages s)
     \<and> index s = index_of (messages s)
     \<and> fst ` set (index s) = {1..int (length (messages s))}
     \<and> getMessageCount s = Inr (length (messages s))"
proof -
  assume c: "IndexedMboxMailbox name fs = Inr (s0, fs0)"
    and r: "run_deletes calls s0 fs0 = (s, fs')"
  from run_deletes_in_step [OF constructor_in_step [OF c] r] key_set_index_of [of "messages s"]
  show ?thesis by (simp add: in_step_def getMessageCount_def)
qed

theorem identifier_density_witness:
  "(case run_deletes [(Healthy, 1), (Failing, 1), (Healthy, 2), (Healthy, 7)]
                     (folder_of [msg_A, msg_B, msg_C]) (disk_of [msg_A, msg_B, msg_C]) of
      (s, fs') \<Rightarrow>
        messages s = [msg_C] \<and> index s = [(1, msg_C)] \<and> fst ` set (index s) = {1..1}
        \<and> getMessageCount s = Inr 1)"
proof -
  let ?ms = "[msg_A, msg_B, msg_C]"
  let ?calls = "[(Healthy, 1), (Failing, 1), (Healthy, 2), (Healthy, 7)]"
  obtain s fs' where r: "run_deletes ?calls (folder_of ?ms) (disk_of ?ms) = (s, fs')"
    by (cases "run_deletes ?calls (folder_of ?ms) (disk_of ?ms)")
  from r have m: "messages s = [msg_C]"
    by (auto simp: store_defs example_defs)
  from identifier_density [OF folder_built r] m
  have "index s = [(1, msg_C)] \<and> fst ` set (index s) = {1..1} \<and> getMessageCount s = Inr 1"
    by (simp add: index_of_def)
  with r m show ?thesis by simp
qed

text \<open>
  C6. Delete and I/O failure: when the write of the message file fails during
  \<^verbatim>\<open>deleteMessage\<close>, the failure reaches the caller, and the index, the message list
  and the file are as before the call; when \<^verbatim>\<open>deleteMessage\<close> succeeds, the file has
  been written and the index rebuilt from it.
\<close>

theorem delete_io_failure:
  "deleteMessage d message_id s fs = (r, s', fs') \<Longrightarrow>
     (r = Inl IOFailure \<longrightarrow> index s' = index s \<and> messages s' = messages s \<and> fs' = fs)
     \<and> (d = Failing \<and> dict_has (index s) message_id
          \<and> dict_has (toc_items (lookup fs (mbox s))) (message_id - 1) \<longrightarrow> r = Inl IOFailure)
     \<and> (r = Inr True \<longrightarrow>
          d = Healthy \<and> fs' (path (mbox s')) = File (messages s')
          \<and> index s' = index_of (messages s'))"
  by (auto simp: deleteMessage_def mbox_delitem_def mbox_flush_def Let_def load_index_def
        index_of_def mbox_list_def lookup_def toc_items_def
      split: if_splits prod.splits sum.splits disk.splits option.splits)

theorem delete_io_failure_witness:
  "(case deleteMessage Failing 2 (folder_of [msg_A, msg_B, msg_C])
                                (disk_of [msg_A, msg_B, msg_C]) of
      (r, s', fs') \<Rightarrow>
        r = Inl IOFailure \<and> index s' = index (folder_of [msg_A, msg_B, msg_C])
        \<and> fs' = disk_of [msg_A, msg_B, msg_C])"
proof -
  let ?s = "folder_of [msg_A, msg_B, msg_C]"
  let ?fs = "disk_of [msg_A, msg_B, msg_C]"
  obtain r s' fs' where d: "deleteMessage Failing 2 ?s ?fs = (r, s', fs')"
    by (cases "deleteMessage Failing 2 ?s ?fs")
  have "dict_has (index ?s) 2" "dict_has (toc_items (lookup ?fs (mbox ?s))) (2 - 1)"
    by (simp_all add: store_defs example_defs)
  with delete_io_failure [OF d] have "r = Inl IOFailure \<and> index s' = index ?s \<and> fs' = ?fs"
    by blast
  with d show ?thesis by simp
qed

text \<open>
  The index is as before, but the table of \<^verbatim>\<open>self.mbox\<close> is not: \<^verbatim>\<open>del\<close> has
  taken the key out before \<^verbatim>\<open>flush\<close> failed, so the same delete, tried again on a
  disk that works, ends with \<^verbatim>\<open>KeyError\<close>.
\<close>

lemma retry_after_io_failure:
  "(case deleteMessage Failing 2 (folder_of [msg_A, msg_B, msg_C])
                                (disk_of [msg_A, msg_B, msg_C]) of
      (r, s', fs') \<Rightarrow> fst (deleteMessage Healthy 2 s' fs') = Inl (KeyError 1))"
  by (simp add: store_defs example_defs)

text \<open>
  C7. Not-found contract: for an identifier that is not in the index,
  \<^verbatim>\<open>fetchMessage\<close> fails with the not-found condition and returns no bytes, and
  \<^verbatim>\<open>deleteMessage\<close> fails with it too and leaves the store and the message file as
  they were.
\<close>

theorem not_found_contract:
  "message_id \<notin> fst ` set (index s) \<Longrightarrow>
     fetchMessage message_id s = Inl NotFound
     \<and> deleteMessage d message_id s fs = (Inl NotFound, s, fs)"
  by (simp add: fetchMessage_def deleteMessage_def dict_has_def map_of_eq_None_iff [symmetric])

theorem not_found_contract_witness:
  "fetchMessage 999 (folder_of [msg_A, msg_B]) = Inl NotFound
   \<and> deleteMessage Healthy 999 (folder_of [msg_A, msg_B]) (disk_of [msg_A, msg_B])
       = (Inl NotFound, folder_of [msg_A, msg_B], disk_of [msg_A, msg_B])"
proof -
  have "999 \<notin> fst ` set (index (folder_of [msg_A, msg_B]))"
    by (simp add: store_defs example_defs)
  from not_found_contract [OF this] show ?thesis by blast
qed

text \<open>
  C8, as stated, fails for a folder name whose message file can neither be opened nor
  created: \<^verbatim>\<open>mailbox.mbox\<close> raises in the constructor, and \<^verbatim>\<open>select\<close> returns no
  store, at the first call and at every later one. On a disk without the directory
  \<^verbatim>\<open>mailboxes/nodir\<close>, \<^verbatim>\<open>select(b"nodir/x")\<close> ends with \<^verbatim>\<open>OSError\<close> and
  leaves the directory as it was.
\<close>

theorem select_unopenable_counterexample:
  "(case MboxUser_init [] disk_without_dir of
      Inl e \<Rightarrow> False
    | Inr (u, h, fs) \<Rightarrow> select ''nodir/x'' u h fs = (Inl OSError, u, h, fs))"
  by (simp add: MboxUser_init_def new_mailbox_def select_def disk_without_dir_def
        IndexedMboxMailbox_def mbox_init_def mbox_path_def path_join_def MBOX_DIR_def str_def
        decode_def utf8_step_def dict_set_def dict_has_def)

text \<open>
  In the model a call of \<^verbatim>\<open>select\<close> returns a store for every folder name (a
  string of scalar values, passed as its UTF-8 bytes) that is registered already or
  whose message file is there or can be created.
\<close>

lemma select_returns:
  assumes t: "list_all scalar folder" and e: "encode folder = Inr name"
    and o: "dict_has (mailboxes u) folder \<or> can_open fs (mbox_path folder)"
  shows "\<exists>a u1 h1 fs1. select name u h fs = (Inr a, u1, h1, fs1)"
proof -
  from decode_encode [OF t] e have d: "decode name = Inr folder" by auto
  show ?thesis
  proof (cases "map_of (mailboxes u) folder")
    case (Some a)
    with d show ?thesis by (simp add: select_def)
  next
    case None
    with o have "can_open fs (mbox_path folder)" by (simp add: dict_has_def)
    from constructor_opens [OF this] obtain st fs' where
      "IndexedMboxMailbox folder fs = Inr (st, fs')" by blast
    with d None show ?thesis by (simp add: select_def new_mailbox_def)
  qed
qed

text \<open>
  C8, amended. Idempotent folder access: for every directory and every folder name
  for which a call of \<^verbatim>\<open>select\<close> returns a store (the name is registered already,
  or the constructor can open or create its message file and read it), the store is
  registered under the name, and a second call with the same name returns the same
  reference and leaves the directory, the heap and the disk as the first call left
  them: no second store is made. For a name not seen before, the reference is that of
  a new store.
\<close>

theorem select_idempotent:
  "select name u h fs = (Inr a, u1, h1, fs1) \<Longrightarrow>
     select name u1 h1 fs1 = (Inr a, u1, h1, fs1)
     \<and> (\<exists>folder. decode name = Inr folder \<and> map_of (mailboxes u1) folder = Some a
            \<and> (map_of (mailboxes u) folder = None \<longrightarrow>
                  a = length h
                  \<and> (\<exists>s. IndexedMboxMailbox folder fs = Inr (s, fs1) \<and> h1 = h @ [s])))"
  by (auto simp: select_def new_mailbox_def map_of_dict_set
      split: option.splits prod.splits sum.splits)

theorem select_idempotent_witness:
  "(case MboxUser_init [] (\<lambda>p. Absent) of
      Inl e \<Rightarrow> False
    | Inr (u, h, fs) \<Rightarrow>
        (case select ''Archive'' u h fs of
           (r, u1, h1, fs1) \<Rightarrow>
             r = Inr 1 \<and> length h1 = 2
             \<and> select ''Archive'' u1 h1 fs1 = (Inr 1, u1, h1, fs1)))"
proof -
  obtain u h fs where i: "MboxUser_init [] (\<lambda>p. Absent) = Inr (u, h, fs)"
    by (auto simp: MboxUser_init_def new_mailbox_def IndexedMboxMailbox_def mbox_init_def)
  have t: "list_all scalar (str ''Archive'')"
    by (simp add: scalar_def str_def)
  have e: "encode (str ''Archive'') = Inr ''Archive''"
    by (simp add: str_def encode_cp_def char_of_nat_eval)
  from i have n: "map_of (mailboxes u) (str ''Archive'') = None" and l: "length h = 1"
    and o: "can_open fs (mbox_path (str ''Archive''))"
    by (auto simp: MboxUser_init_def new_mailbox_def IndexedMboxMailbox_def mbox_init_def
          can_open_def mbox_path_def path_join_def MBOX_DIR_def str_def)
  from o have "dict_has (mailboxes u) (str ''Archive'') \<or> can_open fs (mbox_path (str ''Archive''))"
    by simp
  from select_returns [OF t e this]
  obtain a u1 h1 fs1 where s: "select ''Archive'' u h fs = (Inr a, u1, h1, fs1)" by blast
  from decode_encode [OF t] e have d: "decode ''Archive'' = Inr (str ''Archive'')" by auto
  from select_idempotent [OF s] d n l
  have "a = 1 \<and> length h1 = 2 \<and> select ''Archive'' u1 h1 fs1 = (Inr 1, u1, h1, fs1)"
    by auto
  with i s show ?thesis by simp
qed

text \<open>
  C9, as stated, fails: \<^verbatim>\<open>create\<close> does fail when the message file of the name can
  neither be opened nor created. On a disk without the directory
  \<^verbatim>\<open>mailboxes/nodir\<close>, \<^verbatim>\<open>create("nodir/x")\<close> ends with the \<^verbatim>\<open>OSError\<close> of the
  constructor, returns no success and binds nothing.
\<close>

theorem create_unopenable_counterexample:
  "(case MboxUser_init [] disk_without_dir of
      Inl e \<Rightarrow> False
    | Inr (u, h, fs) \<Rightarrow> create (str ''nodir/x'') u h fs = (Inl OSError, u, h, fs))"
  by (simp add: MboxUser_init_def new_mailbox_def create_def disk_without_dir_def
        IndexedMboxMailbox_def mbox_init_def mbox_path_def path_join_def MBOX_DIR_def str_def)

text \<open>When the constructor raises, \<^verbatim>\<open>create\<close> raises and changes nothing.\<close>

lemma create_raises:
  "IndexedMboxMailbox p fs = Inl e \<Longrightarrow> create p u h fs = (Inl e, u, h, fs)"
  by (simp add: create_def new_mailbox_def)

text \<open>
  C9, amended. \<^verbatim>\<open>create\<close> does not fail on account of the name: for every directory
  and every name, known or not, for which the constructor builds a store (it can open
  or create the message file of the name and read it), \<^verbatim>\<open>create\<close> puts that new
  store, which holds the messages of the file, at a new place of the heap, binds the
  name to it in place of any store bound before, and returns success.
\<close>

theorem create_rebinds:
  "IndexedMboxMailbox p fs = Inr (s, fs') \<Longrightarrow>
     create p u h fs
       = (Inr True, u\<lparr>mailboxes := dict_set (mailboxes u) p (length h)\<rparr>, h @ [s], fs')
     \<and> map_of (dict_set (mailboxes u) p (length h)) p = Some (length h)
     \<and> messages s = contents fs (mbox_path p)"
proof -
  assume c: "IndexedMboxMailbox p fs = Inr (s, fs')"
  from constructor_messages [OF c] have "messages s = contents fs (mbox_path p)" by simp
  with c show ?thesis
    by (simp add: create_def new_mailbox_def map_of_dict_set)
qed

theorem create_rebinds_witness:
  "(case MboxUser_init [] (\<lambda>p. Absent) of
      Inl e \<Rightarrow> False
    | Inr (u, h, fs) \<Rightarrow>
        map_of (mailboxes u) (str ''INBOX'') = Some 0
        \<and> (case create (str ''INBOX'') u h fs of
             (r, u', h', fs') \<Rightarrow>
               r = Inr True \<and> map_of (mailboxes u') (str ''INBOX'') = Some 1
               \<and> length h' = 2))"
proof -
  obtain u h fs where i: "MboxUser_init [] (\<lambda>p. Absent) = Inr (u, h, fs)"
    by (auto simp: MboxUser_init_def new_mailbox_def IndexedMboxMailbox_def mbox_init_def)
  from i have b: "map_of (mailboxes u) (str ''INBOX'') = Some 0" and l: "length h = 1"
    and o: "can_open fs (mbox_path (str ''INBOX''))"
    by (auto simp: MboxUser_init_def new_mailbox_def IndexedMboxMailbox_def mbox_init_def
          can_open_def)
  from constructor_opens [OF o]
  obtain s fs' where c: "IndexedMboxMailbox (str ''INBOX'') fs = Inr (s, fs')" by blast
  from create_rebinds [OF c, of u h] b l i show ?thesis by auto
qed

text \<open>
  C10. A search with the empty query returns the identifiers of every message of the
  folder, since the empty string occurs in every subject. The code does not do that
  on a folder with a message whose subject holds a raw non-ASCII byte: the library
  hands that subject out as a \<^verbatim>\<open>Header\<close> object, the call of \<^verbatim>\<open>lower\<close> on it
  raises \<^verbatim>\<open>AttributeError\<close>, and the search returns no identifier at all, whatever
  function \<^verbatim>\<open>str.lower\<close> is.
\<close>

theorem search_empty_query_raises_on_header:
  "search lower [] (folder_of [msg_A, msg_latin1_subject]) = Inl AttributeError"
  by (simp add: store_defs example_defs search_def matches_def get_subject_def)

text \<open>
  Where every subject is absent or a string, the empty query finds every message
  and no body is looked at: multipart messages are found as well. Of
  \<^verbatim>\<open>str.lower\<close> this uses that it maps the empty string to itself.
\<close>

lemma search_loop_empty_query:
  "lower [] = [] \<Longrightarrow> list_all (\<lambda>msg. get_subject msg \<noteq> Header) (map snd items) \<Longrightarrow>
     search_loop lower [] items results = Inr (results @ map fst items)"
proof (induction items arbitrary: results)
  case Nil
  then show ?case by simp
next
  case (Cons item items)
  obtain msg_id msg where item: "item = (msg_id, msg)" by (cases item)
  from Cons.prems item obtain subj where "get_subject msg = Str subj"
    by (cases "get_subject msg") auto
  with Cons.prems(1) have "matches lower [] msg = Inr True"
    by (cases "lower subj") (simp_all add: matches_def)
  with Cons item show ?case by simp
qed

lemma search_empty_query:
  "lower [] = [] \<Longrightarrow> list_all (\<lambda>msg. get_subject msg \<noteq> Header) (map snd (index s)) \<Longrightarrow>
     search lower [] s = Inr (map fst (index s))"
  by (simp add: search_def search_loop_empty_query)


end
